theory Spec2Isabelle
  imports Main "HOL-Library.AList"
begin

section \<open>Time: the part of Python's \<^verbatim>\<open>datetime\<close> the scheduler uses\<close>

text \<open>
  \<^verbatim>\<open>aurelius/modules/scheduler.py\<close> reads the wall clock with \<^verbatim>\<open>datetime.now()\<close> and uses
  the fields \<^verbatim>\<open>hour\<close> and \<^verbatim>\<open>day\<close>, the methods \<^verbatim>\<open>date()\<close> and \<^verbatim>\<open>weekday()\<close>, and the
  difference of two datetimes. A naive datetime is the record of its fields; the ordinal
  of its date is computed as the standard library does (\<^verbatim>\<open>_ymd2ord\<close>).

  The scheduler stores \<^verbatim>\<open>last_run\<close> as \<^verbatim>\<open>datetime.now().isoformat()\<close> and reads it back with
  \<^verbatim>\<open>datetime.fromisoformat\<close>; for a naive datetime the two are inverse, so the model keeps
  the datetime itself.
\<close>

record datetime =
  year :: int
  month :: int
  day :: int
  hour :: int
  minute :: int
  second :: int
  microsecond :: int

definition is_leap :: "int \<Rightarrow> bool" where
  "is_leap y = (y mod 4 = 0 \<and> (y mod 100 \<noteq> 0 \<or> y mod 400 = 0))"

definition days_before_year :: "int \<Rightarrow> int" where
  "days_before_year y =
     (let y1 = y - 1 in y1 * 365 + y1 div 4 - y1 div 100 + y1 div 400)"

definition DAYS_BEFORE_MONTH :: "int list" where
  "DAYS_BEFORE_MONTH = [0, 31, 59, 90, 120, 151, 181, 212, 243, 273, 304, 334]"

definition days_before_month :: "int \<Rightarrow> int \<Rightarrow> int" where
  "days_before_month y m =
     (if 1 \<le> m \<and> m \<le> 12
      then DAYS_BEFORE_MONTH ! nat (m - 1) + (if m > 2 \<and> is_leap y then 1 else 0)
      else 0)"

definition toordinal :: "datetime \<Rightarrow> int" where
  "toordinal d = days_before_year (year d) + days_before_month (year d) (month d) + day d"

text \<open>\<^verbatim>\<open>weekday()\<close>: Monday is 0, Sunday is 6.\<close>

definition weekday :: "datetime \<Rightarrow> int" where
  "weekday d = (toordinal d + 6) mod 7"

text \<open>\<^verbatim>\<open>date()\<close>: the calendar date of a datetime.\<close>

definition date :: "datetime \<Rightarrow> int \<times> int \<times> int" where
  "date d = (year d, month d, day d)"

text \<open>
  \<^verbatim>\<open>a - b\<close> on datetimes, as the number of microseconds of the resulting timedelta
  (\<^verbatim>\<open>total_seconds()\<close> is this number divided by \<open>10\<^sup>6\<close>).
\<close>

definition seconds_of_day :: "datetime \<Rightarrow> int" where
  "seconds_of_day d = second d + minute d * 60 + hour d * 3600"

definition total_microseconds :: "datetime \<Rightarrow> datetime \<Rightarrow> int" where
  "total_microseconds a b =
     ((toordinal a - toordinal b) * 86400 + (seconds_of_day a - seconds_of_day b)) * 1000000
       + (microsecond a - microsecond b)"

text \<open>
  \<^verbatim>\<open>timedelta.total_seconds()\<close> is the float nearest to the number of microseconds divided
  by \<open>10\<^sup>6\<close>: the division of two integers is correctly rounded, to 53 significant bits,
  ties to the even mantissa. The float is kept as its signed mantissa \<open>m\<close> and a binary
  scale \<open>k\<close>, standing for \<open>m / 2\<^sup>k\<close>; \<open>k\<close> is the least scale that brings the quotient
  to \<open>2\<^sup>5\<^sup>2\<close> or more. No timedelta reaches \<open>2\<^sup>5\<^sup>3\<close> seconds (its days are bounded by
  999999999), so none needs a negative scale.
\<close>

definition round_half_even :: "int \<Rightarrow> int \<Rightarrow> int" where
  "round_half_even p q =
     (let f = p div q; r = p mod q
      in if 2 * r < q then f
         else if q < 2 * r then f + 1
         else if even f then f else f + 1)"

fun binary_scale :: "nat \<Rightarrow> int \<Rightarrow> nat \<Rightarrow> nat" where
  "binary_scale 0 a k = k"
| "binary_scale (Suc fuel) a k =
     (if 2 ^ 52 * 1000000 \<le> a * 2 ^ k then k else binary_scale fuel a (Suc k))"

definition total_seconds :: "int \<Rightarrow> int \<times> nat" where
  "total_seconds us =
     (let k = binary_scale 72 \<bar>us\<bar> 0
      in (sgn us * round_half_even (\<bar>us\<bar> * 2 ^ k) 1000000, k))"

text \<open>\<^verbatim>\<open>x < n\<close> for a float \<open>x\<close> and an integer \<open>n\<close>: Python compares the two exactly.\<close>

definition float_less_int :: "int \<times> nat \<Rightarrow> int \<Rightarrow> bool" where
  "float_less_int x n = (fst x < n * 2 ^ snd x)"

section \<open>Exceptions\<close>

text \<open>
  The scheduler distinguishes \<^verbatim>\<open>asyncio.CancelledError\<close> from \<^verbatim>\<open>Exception\<close>. The module
  calls \<^verbatim>\<open>asyncio.create_task(..., name=...)\<close>, which exists from Python 3.8 on, where
  \<^verbatim>\<open>CancelledError\<close> derives from \<^verbatim>\<open>BaseException\<close>: \<^verbatim>\<open>except Exception\<close> does not catch
  it, a bare \<^verbatim>\<open>except:\<close> does. \<open>Exception msg\<close> stands for any instance of \<^verbatim>\<open>Exception\<close>
  with \<^verbatim>\<open>str(e) = msg\<close>.
\<close>

datatype exn = Exception string | CancelledError

section \<open>The world outside the scheduler\<close>

record execution_log =
  task_name :: string
  timestamp :: datetime
  success :: bool
  error :: "string option"

record task_state =
  running :: bool
  cancelled :: bool

text \<open>
  The health snapshot of \<^verbatim>\<open>_system_health_check\<close>. The entries \<^verbatim>\<open>api_endpoints\<close> (always
  \<^verbatim>\<open>{}\<close>) and \<^verbatim>\<open>memory_usage\<close> (always \<^verbatim>\<open>"unknown"\<close>) never change and are left out.
\<close>

record health_status =
  hs_timestamp :: datetime
  redis_connection :: bool
  task_status :: "(string \<times> task_state) list"
  overall_status :: string

text \<open>
  What the scheduler keeps in the store: execution histories, the health snapshot, and
  the ISO timestamp written by the health probe (a non-empty string).
\<close>

datatype store_value =
    History "execution_log list"
  | Health health_status
  | Stamp datetime

text \<open>
  The state of the store. The scheduler wraps its calls to the store in \<^verbatim>\<open>try\<close> and also
  tests the value read back against \<^verbatim>\<open>None\<close>, so an unreachable store is modelled in both
  ways: it raises (\<open>Raising\<close>), or it drops writes and finds nothing (\<open>Dropping\<close>).
\<close>

datatype store_mode = Reachable | Raising string | Dropping

type_synonym report = string

text \<open>
  The ambient conditions are what the collaborators and the event loop do, none of which
  the scheduler controls: the readings of the clock, the state of the store, what a call to
  the Discord client raises, what the report builders return, what is thrown into a
  sleeping task, and what awaiting a cancelled task raises.
\<close>

record ambient =
  clock :: "nat \<Rightarrow> datetime"
  mode :: store_mode
  discord_fault :: "exn option"
  daily_report :: "exn + report option"
  weekly_report :: "exn + report option"
  monthly_report :: "exn + report option"
  sleep_fault :: "exn option"
  await_task :: "string \<Rightarrow> exn option"

text \<open>
  The world is what the scheduler's calls change: the number of clock readings taken, the
  contents of the store, and the traces of the calls that reached a collaborator.
\<close>

record world =
  reads :: nat
  store :: "string \<rightharpoonup> store_value"
  alerts :: "(string \<times> string) list"
  generated :: "string list"
  reports_sent :: "report list"
  cancel_requests :: "string list"

text \<open>
  \<^verbatim>\<open>datetime.now()\<close>: every call is a reading of its own; \<open>clock amb k\<close> is what the
  \<open>k\<close>-th reading returns.
\<close>

definition now :: "ambient \<Rightarrow> world \<Rightarrow> datetime \<times> world" where
  "now amb w = (clock amb (reads w), w\<lparr>reads := Suc (reads w)\<rparr>)"

text \<open>
  Modelled from the spec: the state store (\<^verbatim>\<open>aurelius/modules/data_store.py\<close> is not among
  the sources), \<^verbatim>\<open>get(key) -> value|absent\<close>.
\<close>

definition data_store_get :: "ambient \<Rightarrow> string \<Rightarrow> world \<Rightarrow> exn + store_value option" where
  "data_store_get amb key w =
     (case mode amb of
        Reachable \<Rightarrow> Inr (store w key)
      | Raising msg \<Rightarrow> Inl (Exception msg)
      | Dropping \<Rightarrow> Inr None)"

text \<open>
  Modelled from the spec: the state store, \<^verbatim>\<open>set(key, value, expire?) -> ok\<close>. Expiry of
  keys is real time and is not modelled.
\<close>

definition data_store_set ::
  "ambient \<Rightarrow> string \<Rightarrow> store_value \<Rightarrow> world \<Rightarrow> exn option \<times> world" where
  "data_store_set amb key v w =
     (case mode amb of
        Reachable \<Rightarrow> (None, w\<lparr>store := (store w)(key \<mapsto> v)\<rparr>)
      | Raising msg \<Rightarrow> (Some (Exception msg), w)
      | Dropping \<Rightarrow> (None, w))"

text \<open>
  Modelled from the spec: the alerting sink (\<^verbatim>\<open>aurelius/modules/social.py\<close> is not among
  the sources), \<^verbatim>\<open>send_alert(message, source_tag) -> ok|error\<close>. \<open>discord_fault\<close> is what a
  call to the Discord client raises, \<open>None\<close> when it delivers.
\<close>

definition send_system_alert ::
  "ambient \<Rightarrow> string \<Rightarrow> string \<Rightarrow> world \<Rightarrow> exn option \<times> world" where
  "send_system_alert amb message source w =
     (case discord_fault amb of
        None \<Rightarrow> (None, w\<lparr>alerts := alerts w @ [(message, source)]\<rparr>)
      | Some e \<Rightarrow> (Some e, w))"

text \<open>
  Modelled from the spec: the Discord client's \<^verbatim>\<open>send_analytics_report\<close>, an opaque
  asynchronous call that completes or raises; a delivered report is recorded in
  \<open>reports_sent\<close>.
\<close>

definition send_analytics_report :: "ambient \<Rightarrow> report \<Rightarrow> world \<Rightarrow> exn option \<times> world" where
  "send_analytics_report amb r w =
     (case discord_fault amb of
        None \<Rightarrow> (None, w\<lparr>reports_sent := reports_sent w @ [r]\<rparr>)
      | Some e \<Rightarrow> (Some e, w))"

text \<open>
  Modelled from the spec: the analytics report builders (\<^verbatim>\<open>aurelius/modules/analytics.py\<close>
  is not among the sources), opaque asynchronous calls that complete or raise. A call is
  recorded in \<open>generated\<close>; a report that is \<^verbatim>\<open>None\<close> or empty is \<open>None\<close>.
\<close>

definition generate_daily_report ::
  "ambient \<Rightarrow> world \<Rightarrow> (exn + report option) \<times> world" where
  "generate_daily_report amb w =
     (daily_report amb, w\<lparr>generated := generated w @ [''daily'']\<rparr>)"

text \<open>Modelled from the spec: the builder of the weekly report, as the daily one.\<close>

definition generate_weekly_report ::
  "ambient \<Rightarrow> world \<Rightarrow> (exn + report option) \<times> world" where
  "generate_weekly_report amb w =
     (weekly_report amb, w\<lparr>generated := generated w @ [''weekly'']\<rparr>)"

text \<open>Modelled from the spec: the builder of the monthly report, as the daily one.\<close>

definition generate_monthly_report :: "ambient \<Rightarrow> world \<Rightarrow> (exn + report option) \<times> world" where
  "generate_monthly_report amb w =
     (monthly_report amb, w\<lparr>generated := generated w @ [''monthly'']\<rparr>)"

text \<open>\<^verbatim>\<open>asyncio.sleep(60)\<close>: returns, or raises what is thrown into the sleeping task.\<close>

definition sleep :: "ambient \<Rightarrow> exn option" where
  "sleep amb = sleep_fault amb"

section \<open>The scheduler\<close>

text \<open>
  An \<^verbatim>\<open>asyncio.Task\<close> as the scheduler observes it through \<^verbatim>\<open>done()\<close> and \<^verbatim>\<open>cancelled()\<close>.
\<close>

datatype task = Pending | Finished | Cancelled

definition task_done :: "task \<Rightarrow> bool" where
  "task_done t = (t \<noteq> Pending)"

definition task_cancelled :: "task \<Rightarrow> bool" where
  "task_cancelled t = (t = Cancelled)"

text \<open>
  A job's operation (\<^verbatim>\<open>config["function"]\<close>, the field \<open>task_function\<close>) is a bound
  method of the scheduler: it sees \<^verbatim>\<open>self.running_tasks\<close> (the health check reads it) and
  acts on the world; it returns normally (\<open>None\<close>) or raises.
\<close>

type_synonym operation = "(string \<times> task) list \<Rightarrow> ambient \<Rightarrow> world \<Rightarrow> exn option \<times> world"

record task_config =
  interval_minutes :: int
  enabled :: bool
  last_run :: "datetime option"
  task_function :: operation
  run_at_hour :: "int option"

text \<open>
  \<^verbatim>\<open>TaskScheduler\<close>: the two dictionaries keep their insertion order, which is the order
  in which \<^verbatim>\<open>stop\<close> and the status query walk them. \<open>env\<close> is the world the scheduler's
  calls act on.
\<close>

record scheduler =
  running_tasks :: "(string \<times> task) list"
  task_configs :: "(string \<times> task_config) list"
  is_running :: bool
  env :: world

subsection \<open>\<^verbatim>\<open>_should_run_task\<close>\<close>

text \<open>
  The \<^verbatim>\<open>try\<close> of the source guards a missing \<^verbatim>\<open>interval_minutes\<close> key and a malformed
  \<^verbatim>\<open>last_run\<close> string; a \<open>task_config\<close> has neither, so no branch of the model raises.
\<close>

definition should_run_task ::
  "ambient \<Rightarrow> string \<Rightarrow> task_config \<Rightarrow> int option \<Rightarrow> world \<Rightarrow> bool \<times> world" where
  "should_run_task amb name config at_hour w =
     (case last_run config of
        None \<Rightarrow>
          (case at_hour of
             Some h \<Rightarrow> (let (n, w1) = now amb w in (hour n = h, w1))
           | None \<Rightarrow> (True, w))
      | Some last_dt \<Rightarrow>
          (let (n1, w1) = now amb w in
           if float_less_int (total_seconds (total_microseconds n1 last_dt))
                (interval_minutes config * 60)
           then (False, w1)
           else
             (case at_hour of
                None \<Rightarrow> (True, w1)
              | Some h \<Rightarrow>
                  (let (n2, w2) = now amb w1 in
                   if hour n2 \<noteq> h then (False, w2)
                   else
                     (let (n3, w3) = now amb w2 in
                      if date last_dt = date n3 \<and> hour last_dt = h then (False, w3)
                      else (True, w3))))))"

subsection \<open>\<^verbatim>\<open>_log_task_execution\<close>\<close>

definition history_key :: "string \<Rightarrow> string" where
  "history_key name = ''task_execution_history:'' @ name"

text \<open>
  \<^verbatim>\<open>await data_store.get(history_key) or []\<close> followed by \<^verbatim>\<open>history.insert(0, ...)\<close>: a
  missing value or an empty list gives the empty list; a stored value that is not a list
  has no \<^verbatim>\<open>insert\<close>.
\<close>

definition stored_history :: "store_value option \<Rightarrow> exn + execution_log list" where
  "stored_history v =
     (case v of
        None \<Rightarrow> Inr []
      | Some (History h) \<Rightarrow> Inr h
      | Some (Health h) \<Rightarrow> Inl (Exception ''AttributeError'')
      | Some (Stamp t) \<Rightarrow> Inl (Exception ''AttributeError''))"

text \<open>Every exception of the body is caught and logged: the function always returns.\<close>

definition log_task_execution ::
  "ambient \<Rightarrow> string \<Rightarrow> bool \<Rightarrow> string option \<Rightarrow> world \<Rightarrow> world" where
  "log_task_execution amb name ok err w =
     (let (n, w1) = now amb w;
          entry = \<lparr>task_name = name, timestamp = n, success = ok, error = err\<rparr>
      in case data_store_get amb (history_key name) w1 of
           Inl e \<Rightarrow> w1
         | Inr v \<Rightarrow>
             (case stored_history v of
                Inl e \<Rightarrow> w1
              | Inr history \<Rightarrow>
                  snd (data_store_set amb (history_key name)
                         (History (take 100 (entry # history))) w1)))"

subsection \<open>\<^verbatim>\<open>_run_periodic_task\<close>\<close>

text \<open>
  \<^verbatim>\<open>config["last_run"] = datetime.now().isoformat()\<close>: the runner's \<^verbatim>\<open>config\<close> is the
  dictionary stored under the task's name in \<^verbatim>\<open>task_configs\<close>.
\<close>

definition set_last_run :: "string \<Rightarrow> datetime \<Rightarrow> scheduler \<Rightarrow> scheduler" where
  "set_last_run name n s =
     s\<lparr>task_configs := AList.map_entry name (\<lambda>c. c\<lparr>last_run := Some n\<rparr>) (task_configs s)\<rparr>"

definition failure_alert :: "string \<Rightarrow> string \<Rightarrow> string" where
  "failure_alert name msg =
     ''Scheduled task '' @ [CHR 0x27] @ name @ [CHR 0x27] @ '' failed: '' @ msg"

text \<open>
  The body of \<^verbatim>\<open>if should_run:\<close> (lines 156 to 180): the inner \<^verbatim>\<open>try\<close> with its
  \<^verbatim>\<open>except Exception\<close> handler, and inside the handler the alert under a bare
  \<^verbatim>\<open>except: pass\<close>. The result is the exception that leaves the block.
\<close>

definition execute_scheduled_task ::
  "ambient \<Rightarrow> string \<Rightarrow> task_config \<Rightarrow> scheduler \<Rightarrow> exn option \<times> scheduler" where
  "execute_scheduled_task amb name config s =
     (case task_function config (running_tasks s) amb (env s) of
        (None, w1) \<Rightarrow>
          (let (n, w2) = now amb w1;
               s1 = set_last_run name n s
           in (None, s1\<lparr>env := log_task_execution amb name True None w2\<rparr>))
      | (Some (Exception msg), w1) \<Rightarrow>
          (let w2 = log_task_execution amb name False (Some msg) w1;
               (r, w3) = send_system_alert amb (failure_alert name msg) ''scheduler'' w2
           in (None, s\<lparr>env := w3\<rparr>))
      | (Some CancelledError, w1) \<Rightarrow> (Some CancelledError, s\<lparr>env := w1\<rparr>))"

datatype loop_ctl = Continue | Break | Propagated exn

text \<open>
  One pass through the body of \<^verbatim>\<open>while self.is_running:\<close>. \<open>Continue\<close>: the pass ends and
  the loop tests its condition again; \<open>Break\<close>: the \<^verbatim>\<open>CancelledError\<close> handler leaves the
  loop; \<open>Propagated e\<close>: \<open>e\<close> leaves the coroutine (the sleep of the last handler is outside
  the \<^verbatim>\<open>try\<close>). A runner is only spawned for a name of \<^verbatim>\<open>task_configs\<close>; for any other
  name the model has no loop to run.
\<close>

definition periodic_iteration :: "ambient \<Rightarrow> string \<Rightarrow> scheduler \<Rightarrow> loop_ctl \<times> scheduler" where
  "periodic_iteration amb name s =
     (case map_of (task_configs s) name of
        None \<Rightarrow> (Break, s)
      | Some config \<Rightarrow>
          (let (should_run, w1) = should_run_task amb name config (run_at_hour config) (env s);
               s1 = s\<lparr>env := w1\<rparr>;
               (r, s2) = (if should_run then execute_scheduled_task amb name config s1
                          else (None, s1));
               raised = (case r of None \<Rightarrow> sleep amb | Some e \<Rightarrow> Some e)
           in case raised of
                None \<Rightarrow> (Continue, s2)
              | Some CancelledError \<Rightarrow> (Break, s2)
              | Some (Exception msg) \<Rightarrow>
                  (case sleep amb of
                     None \<Rightarrow> (Continue, s2)
                   | Some e \<Rightarrow> (Propagated e, s2))))"

text \<open>
  The loop itself never ends on its own. \<open>run_periodic_task n\<close> runs at most \<open>n\<close> passes;
  \<open>Continue\<close> as its result says that after these passes the loop is still running.
\<close>

fun run_periodic_task :: "nat \<Rightarrow> ambient \<Rightarrow> string \<Rightarrow> scheduler \<Rightarrow> loop_ctl \<times> scheduler" where
  "run_periodic_task 0 amb name s = (Continue, s)"
| "run_periodic_task (Suc n) amb name s =
     (if is_running s
      then (case periodic_iteration amb name s of
              (Continue, s1) \<Rightarrow> run_periodic_task n amb name s1
            | (Break, s1) \<Rightarrow> (Break, s1)
            | (Propagated e, s1) \<Rightarrow> (Propagated e, s1))
      else (Break, s))"

text \<open>
  The event loop interleaves the runners. A tick lets the runner of one task make one pass,
  if its task is still pending; a runner that leaves its loop makes its task done
  (cancelled when \<^verbatim>\<open>CancelledError\<close> left the coroutine). A schedule is the list of the
  names whose runners are resumed, in order.
\<close>

definition task_after :: "loop_ctl \<Rightarrow> task" where
  "task_after ctl = (case ctl of Propagated CancelledError \<Rightarrow> Cancelled | _ \<Rightarrow> Finished)"

definition tick :: "ambient \<Rightarrow> string \<Rightarrow> scheduler \<Rightarrow> scheduler" where
  "tick amb name s =
     (if map_of (running_tasks s) name = Some Pending
      then (case run_periodic_task 1 amb name s of
              (Continue, s1) \<Rightarrow> s1
            | (ctl, s1) \<Rightarrow>
                s1\<lparr>running_tasks := AList.update name (task_after ctl) (running_tasks s1)\<rparr>)
      else s)"

fun run_ticks :: "ambient \<Rightarrow> string list \<Rightarrow> scheduler \<Rightarrow> scheduler" where
  "run_ticks amb [] s = s"
| "run_ticks amb (name # names) s = run_ticks amb names (tick amb name s)"

subsection \<open>\<^verbatim>\<open>run_task_manually\<close>\<close>

definition run_task_manually :: "ambient \<Rightarrow> string \<Rightarrow> scheduler \<Rightarrow> (exn + bool) \<times> scheduler" where
  "run_task_manually amb name s =
     (case map_of (task_configs s) name of
        None \<Rightarrow> (Inr False, s)
      | Some config \<Rightarrow>
          (case task_function config (running_tasks s) amb (env s) of
             (None, w1) \<Rightarrow>
               (let (n, w2) = now amb w1;
                    s1 = set_last_run name n s
                in (Inr True, s1\<lparr>env := log_task_execution amb name True None w2\<rparr>))
           | (Some (Exception msg), w1) \<Rightarrow>
               (Inr False, s\<lparr>env := log_task_execution amb name False (Some msg) w1\<rparr>)
           | (Some CancelledError, w1) \<Rightarrow> (Inl CancelledError, s\<lparr>env := w1\<rparr>)))"

subsection \<open>\<^verbatim>\<open>stop\<close>\<close>



subsection \<open>The analytics jobs\<close>

text \<open>
  The decorator \<^verbatim>\<open>log_async_function_calls\<close> comes from \<^verbatim>\<open>aurelius/logger.py\<close>, which is not
  among the sources; it is taken to log the call and to return or raise what the decorated
  function does.

  \<^verbatim>\<open>except Exception as e: logger.error(...)\<close> around a whole body: an \<^verbatim>\<open>Exception\<close> ends
  the body and the function returns normally, anything else propagates.
\<close>

definition except_Exception :: "exn option \<times> world \<Rightarrow> exn option \<times> world" where
  "except_Exception r =
     (case r of
        (Some (Exception msg), w) \<Rightarrow> (None, w)
      | (Some CancelledError, w) \<Rightarrow> (Some CancelledError, w)
      | (None, w) \<Rightarrow> (None, w))"

text \<open>\<^verbatim>\<open>report = await generate_..._report(); if report: await discord.send_analytics_report(report)\<close>\<close>

definition send_if_report ::
  "ambient \<Rightarrow> (exn + report option) \<times> world \<Rightarrow> exn option \<times> world" where
  "send_if_report amb r =
     (case r of
        (Inl e, w) \<Rightarrow> (Some e, w)
      | (Inr None, w) \<Rightarrow> (None, w)
      | (Inr (Some rep), w) \<Rightarrow> send_analytics_report amb rep w)"

definition generate_daily_analytics :: operation where
  "generate_daily_analytics rt amb w =
     except_Exception (send_if_report amb (generate_daily_report amb w))"

definition generate_weekly_analytics :: operation where
  "generate_weekly_analytics rt amb w =
     (let (n, w1) = now amb w in
      if weekday n = 0
      then except_Exception (send_if_report amb (generate_weekly_report amb w1))
      else (None, w1))"

definition generate_monthly_analytics :: operation where
  "generate_monthly_analytics rt amb w =
     (let (n, w1) = now amb w in
      if day n = 1
      then except_Exception (send_if_report amb (generate_monthly_report amb w1))
      else (None, w1))"

subsection \<open>\<^verbatim>\<open>_system_health_check\<close>\<close>

text \<open>Lines 432 to 438: the round trip through the store, under its own \<^verbatim>\<open>try\<close>.\<close>

definition probe_store :: "ambient \<Rightarrow> world \<Rightarrow> bool \<times> world" where
  "probe_store amb w =
     (let (n, w1) = now amb w in
      case data_store_set amb ''health_check'' (Stamp n) w1 of
        (Some e, w2) \<Rightarrow> (False, w2)
      | (None, w2) \<Rightarrow>
          (case data_store_get amb ''health_check'' w2 of
             Inl e \<Rightarrow> (False, w2)
           | Inr v \<Rightarrow> (v \<noteq> None, w2)))"

definition liveness :: "task \<Rightarrow> task_state" where
  "liveness t =
     \<lparr>running = \<not> task_done t, cancelled = (if task_done t then task_cancelled t else False)\<rparr>"

definition derive_overall_status :: "bool \<Rightarrow> bool \<Rightarrow> string" where
  "derive_overall_status redis_ok tasks_ok =
     (if redis_ok \<and> tasks_ok then ''healthy''
      else if redis_ok \<or> tasks_ok then ''degraded''
      else ''unhealthy'')"

text \<open>Lines 423 to 456: the snapshot, up to the derivation of \<^verbatim>\<open>overall_status\<close>.\<close>

definition health_snapshot ::
  "(string \<times> task) list \<Rightarrow> ambient \<Rightarrow> world \<Rightarrow> health_status \<times> world" where
  "health_snapshot rt amb w =
     (let (n, w1) = now amb w;
          (redis, w2) = probe_store amb w1;
          statuses = map (\<lambda>(name, t). (name, liveness t)) rt;
          redis_ok = redis;
          tasks_ok = list_all (\<lambda>(name, st). running st) statuses
      in (\<lparr>hs_timestamp = n, redis_connection = redis, task_status = statuses,
           overall_status = derive_overall_status redis_ok tasks_ok\<rparr>, w2))"

definition system_health_check :: operation where
  "system_health_check rt amb w =
     (let (hs, w1) = health_snapshot rt amb w in
      except_Exception
        (case data_store_set amb ''system_health'' (Health hs) w1 of
           (Some e, w2) \<Rightarrow> (Some e, w2)
         | (None, w2) \<Rightarrow>
             (if overall_status hs = ''unhealthy''
              then send_system_alert amb
                     ''System health check failed - multiple components are down''
                     ''health_monitor'' w2
              else (None, w2))))"

subsection \<open>\<^verbatim>\<open>get_task_status\<close> and \<^verbatim>\<open>_calculate_next_run\<close>\<close>













subsection \<open>\<^verbatim>\<open>start\<close>\<close>

text \<open>
  \<^verbatim>\<open>aurelius/config.py\<close> is not among the sources: the settings the registry reads are a
  parameter. So are the four jobs whose bodies only call collaborators that are not among
  the sources (content generator, social clients, sales, learning engine).
\<close>

record settings =
  post_interval_minutes :: int
  analytics_report_hour :: int
  learning_update_hours :: int

record jobs =
  post_scheduled_content :: operation
  process_social_engagement :: operation
  process_sales_tasks :: operation
  run_auto_learning :: operation

definition job_config :: "int \<Rightarrow> operation \<Rightarrow> int option \<Rightarrow> task_config" where
  "job_config interval f at_hour =
     \<lparr>interval_minutes = interval, enabled = True, last_run = None, task_function = f,
      run_at_hour = at_hour\<rparr>"

definition initialize_task_configs :: "settings \<Rightarrow> jobs \<Rightarrow> scheduler \<Rightarrow> scheduler" where
  "initialize_task_configs cfg js s =
     s\<lparr>task_configs :=
        [(''content_posting'',
            job_config (post_interval_minutes cfg) (post_scheduled_content js) None),
         (''social_engagement'', job_config 30 (process_social_engagement js) None),
         (''sales_tasks'', job_config 60 (process_sales_tasks js) None),
         (''daily_analytics'',
            job_config 1440 generate_daily_analytics (Some (analytics_report_hour cfg))),
         (''weekly_analytics'',
            job_config 10080 generate_weekly_analytics (Some (analytics_report_hour cfg))),
         (''monthly_analytics'',
            job_config 43200 generate_monthly_analytics (Some (analytics_report_hour cfg))),
         (''auto_learning'',
            job_config (learning_update_hours cfg * 60) (run_auto_learning js) None),
         (''system_health_check'', job_config 15 system_health_check None)]\<rparr>"

fun spawn_tasks :: "(string \<times> task_config) list \<Rightarrow> (string \<times> task) list \<Rightarrow> (string \<times> task) list" where
  "spawn_tasks [] rt = rt"
| "spawn_tasks ((name, config) # rest) rt =
     spawn_tasks rest (if enabled config then AList.update name Pending rt else rt)"

definition start_scheduled_tasks :: "scheduler \<Rightarrow> scheduler" where
  "start_scheduled_tasks s = s\<lparr>running_tasks := spawn_tasks (task_configs s) (running_tasks s)\<rparr>"

definition start :: "settings \<Rightarrow> jobs \<Rightarrow> scheduler \<Rightarrow> scheduler" where
  "start cfg js s =
     (if is_running s then s
      else start_scheduled_tasks (initialize_task_configs cfg js (s\<lparr>is_running := True\<rparr>)))"

section \<open>Concrete inputs\<close>

definition at_time :: "int \<Rightarrow> int \<Rightarrow> int \<Rightarrow> int \<Rightarrow> int \<Rightarrow> datetime" where
  "at_time y mo d h mi =
     \<lparr>year = y, month = mo, day = d, hour = h, minute = mi, second = 0, microsecond = 0\<rparr>"

text \<open>Everything outside works: the store is reachable and nothing raises.\<close>

definition calm :: "(nat \<Rightarrow> datetime) \<Rightarrow> ambient" where
  "calm c =
     \<lparr>clock = c, mode = Reachable, discord_fault = None, daily_report = Inr None,
      weekly_report = Inr (Some ''weekly figures''), monthly_report = Inr (Some ''monthly figures''),
      sleep_fault = None, await_task = (\<lambda>name. Some CancelledError)\<rparr>"

definition fresh_world :: world where
  "fresh_world =
     \<lparr>reads = 0, store = Map.empty, alerts = [], generated = [], reports_sent = [],
      cancel_requests = []\<rparr>"

definition returning :: operation where
  "returning rt amb w = (None, w)"

definition raising :: "string \<Rightarrow> operation" where
  "raising msg rt amb w = (Some (Exception msg), w)"

text \<open>
  Two running jobs with a one-minute interval and no hour constraint: the operation of
  \<open>A\<close> always raises, that of \<open>B\<close> always returns.
\<close>

definition two_jobs :: scheduler where
  "two_jobs =
     \<lparr>running_tasks = [(''A'', Pending), (''B'', Pending)],
      task_configs = [(''A'', job_config 1 (raising ''boom'') None),
                      (''B'', job_config 1 returning None)],
      is_running = True,
      env = fresh_world\<rparr>"

text \<open>A clock that advances by one minute with every reading, from 11 March 2024, 09:00.\<close>

definition minute_clock :: "nat \<Rightarrow> datetime" where
  "minute_clock k = at_time 2024 3 11 9 (int k)"

text \<open>A clock that stands still.\<close>

definition still_clock :: "datetime \<Rightarrow> nat \<Rightarrow> datetime" where
  "still_clock t k = t"

text \<open>
  The job of the spec's example: every 60 minutes, at hour 9, last run on 11 March 2024 at
  09:00.
\<close>

definition nine_job :: task_config where
  "nine_job = (job_config 60 returning (Some 9))\<lparr>last_run := Some (at_time 2024 3 11 9 0)\<rparr>"

text \<open>
  A job due every 315568800 minutes (219145 days, the 600 years from 1400 to 2000), last
  run at the start of the year 1400, and the last microsecond of the year 1999.
\<close>

definition long_job :: task_config where
  "long_job = (job_config 315568800 returning None)\<lparr>last_run := Some (at_time 1400 1 1 0 0)\<rparr>"

definition eve_2000 :: datetime where
  "eve_2000 =
     \<lparr>year = 1999, month = 12, day = 31, hour = 23, minute = 59, second = 59,
      microsecond = 999999\<rparr>"



text \<open>A scheduler started from scratch, with jobs that do nothing where the sources are silent.\<close>

definition some_settings :: settings where
  "some_settings = \<lparr>post_interval_minutes = 120, analytics_report_hour = 9, learning_update_hours = 24\<rparr>"

definition idle_jobs :: jobs where
  "idle_jobs = \<lparr>post_scheduled_content = returning, process_social_engagement = returning,
                process_sales_tasks = returning, run_auto_learning = returning\<rparr>"

definition started :: scheduler where
  "started = start some_settings idle_jobs
               \<lparr>running_tasks = [], task_configs = [], is_running = False, env = fresh_world\<rparr>"

text \<open>A clock that advances by one minute with every reading, from Tuesday 12 March 2024, 09:00.\<close>

definition tuesday_clock :: "nat \<Rightarrow> datetime" where
  "tuesday_clock k = at_time 2024 3 12 9 (int k)"

section \<open>Notions used to state the properties\<close>

text \<open>Logging a sequence of attempts of one task, given as (success, error) pairs.\<close>

fun log_executions :: "ambient \<Rightarrow> string \<Rightarrow> (bool \<times> string option) list \<Rightarrow> world \<Rightarrow> world" where
  "log_executions amb name [] w = w"
| "log_executions amb name ((ok, err) # rest) w =
     log_executions amb name rest (log_task_execution amb name ok err w)"

text \<open>
  The records these attempts produce, oldest first, when the first of them takes the
  \<open>k\<close>-th reading of the clock.
\<close>

fun logged :: "ambient \<Rightarrow> string \<Rightarrow> nat \<Rightarrow> (bool \<times> string option) list \<Rightarrow> execution_log list" where
  "logged amb name k [] = []"
| "logged amb name k ((ok, err) # rest) =
     \<lparr>task_name = name, timestamp = clock amb k, success = ok, error = err\<rparr>
       # logged amb name (Suc k) rest"

definition history_bounded :: "world \<Rightarrow> string \<Rightarrow> bool" where
  "history_bounded w name =
     (case store w (history_key name) of Some (History h) \<Rightarrow> length h \<le> 100 | _ \<Rightarrow> True)"

text \<open>The operations of the registry, by name.\<close>

definition registered_operations :: "scheduler \<Rightarrow> (string \<times> operation) list" where
  "registered_operations s = map (\<lambda>(name, config). (name, task_function config)) (task_configs s)"

text \<open>
  An operation that returns or raises an \<^verbatim>\<open>Exception\<close>, whatever the state it is called
  in: nothing it does cancels its runner.
\<close>

definition never_cancelled :: "ambient \<Rightarrow> operation \<Rightarrow> bool" where
  "never_cancelled amb f = (\<forall>rt w. fst (f rt amb w) \<noteq> Some CancelledError)"

text \<open>
  The scheduler is running, every task was spawned for a job of the registry, and no
  registered operation raises \<^verbatim>\<open>CancelledError\<close>.
\<close>

definition isolating :: "ambient \<Rightarrow> scheduler \<Rightarrow> bool" where
  "isolating amb s =
     (is_running s
      \<and> fst ` set (running_tasks s) \<subseteq> fst ` set (registered_operations s)
      \<and> (\<forall>(name, f) \<in> set (registered_operations s). never_cancelled amb f))"

text \<open>The outcomes in the stored history of a task, newest first.\<close>

definition outcomes :: "scheduler \<Rightarrow> string \<Rightarrow> bool list" where
  "outcomes s name =
     (case store (env s) (history_key name) of
        Some (History h) \<Rightarrow> map success h
      | _ \<Rightarrow> [])"



text \<open>
  The weekly job called on a day that is not a Monday, or the monthly job called on a day
  that is not the first of the month; the day is the one the next reading of the clock gives.
\<close>

definition off_day :: "ambient \<Rightarrow> world \<Rightarrow> operation \<Rightarrow> bool" where
  "off_day amb w f =
     (f = generate_weekly_analytics \<and> weekday (clock amb (reads w)) \<noteq> 0
      \<or> f = generate_monthly_analytics \<and> day (clock amb (reads w)) \<noteq> 1)"

section \<open>Properties\<close>

subsection \<open>Elapsed time as a float\<close>

lemma round_half_even_ge:
  assumes "0 < q" and "N * q \<le> p"
  shows "N \<le> round_half_even p q"
proof -
  have "N \<le> p div q"
    using assms by (metis div_mult_self_is_m le_less zdiv_mono1 nonzero_mult_div_cancel_right less_irrefl)
  then show ?thesis by (auto simp: round_half_even_def Let_def)
qed

lemma round_half_even_le:
  assumes "0 < q" and "p \<le> N * q"
  shows "round_half_even p q \<le> N"
proof -
  have d: "p div q \<le> N"
    using assms by (metis zdiv_mono1 nonzero_mult_div_cancel_right less_irrefl)
  show ?thesis
  proof (cases "p div q = N")
    case True
    then have "p mod q = p - N * q" by (metis minus_div_mult_eq_mod)
    then have "p mod q \<le> 0" using assms by simp
    then show ?thesis using True assms(1) by (auto simp: round_half_even_def Let_def)
  next
    case False
    then show ?thesis using d by (auto simp: round_half_even_def Let_def)
  qed
qed

lemma round_half_even_less:
  assumes "0 < q" and "2 * p + q < 2 * N * q"
  shows "round_half_even p q < N"
proof -
  define f r where "f = p div q" and "r = p mod q"
  define fq where "fq = f * q"
  have p: "p = fq + r" by (simp add: f_def r_def fq_def)
  have r: "0 \<le> r" "r < q" using assms(1) by (simp_all add: r_def)
  have rhe: "round_half_even p q \<le> (if 2 * r < q then f else f + 1)"
    by (auto simp: round_half_even_def Let_def f_def r_def)
  show ?thesis
  proof (cases "2 * r < q")
    case True
    have "2 * fq + q < 2 * N * q" using assms(2) p r by linarith
    then have "(2 * f + 1) * q < (2 * N) * q" by (simp add: fq_def algebra_simps)
    then have "2 * f + 1 < 2 * N" using assms(1) by (simp add: mult_less_cancel_right)
    then show ?thesis using True rhe by simp
  next
    case False
    have "2 * fq + 2 * q < 2 * N * q" using assms(2) p False by linarith
    then have "(f + 1) * q < N * q" by (simp add: fq_def algebra_simps)
    then have "f + 1 < N" using assms(1) by (simp add: mult_less_cancel_right)
    then show ?thesis using False rhe by simp
  qed
qed

lemma binary_scale_reaches:
  "2 ^ 52 * 1000000 \<le> a * 2 ^ (k + fuel) \<Longrightarrow> 2 ^ 52 * 1000000 \<le> a * 2 ^ binary_scale fuel a k"
  by (induction fuel arbitrary: k) auto

lemma binary_scale_normal:
  assumes "1 \<le> a"
  shows "2 ^ 52 * 1000000 \<le> a * 2 ^ binary_scale 72 a 0"
proof -
  have "(2::int) ^ 52 * 1000000 \<le> 1 * 2 ^ 72" by simp
  also have "\<dots> \<le> a * 2 ^ 72" using assms by (intro mult_right_mono) simp_all
  finally show ?thesis using binary_scale_reaches [of a 0 72] by simp
qed


lemma elapsed_not_less:
  assumes "n * 1000000 \<le> us"
  shows "\<not> float_less_int (total_seconds us) n"
proof -
  define k where "k = binary_scale 72 \<bar>us\<bar> 0"
  define m where "m = round_half_even (\<bar>us\<bar> * 2 ^ k) 1000000"
  have ts: "total_seconds us = (sgn us * m, k)"
    by (simp add: total_seconds_def Let_def k_def m_def)
  have pos: "(0::int) < 2 ^ k" by simp
  show ?thesis
  proof (cases "0 \<le> us")
    case True
    have "(n * 2 ^ k) * 1000000 \<le> \<bar>us\<bar> * 2 ^ k"
      using assms True mult_right_mono [of "n * 1000000" us "2 ^ k"] by (simp add: algebra_simps)
    then have ge: "n * 2 ^ k \<le> m"
      unfolding m_def by (intro round_half_even_ge) simp_all
    show ?thesis
    proof (cases "us = 0")
      case True
      then have "n \<le> 0" using assms by simp
      then have "n * 2 ^ k \<le> 0" by (simp add: mult_le_0_iff)
      then show ?thesis using True ts by (simp add: float_less_int_def)
    next
      case False
      then have "sgn us = 1" using True by simp
      then show ?thesis using ts ge by (simp add: float_less_int_def)
    qed
  next
    case False
    then have neg: "us < 0" by simp
    have "\<bar>us\<bar> \<le> (- n) * 1000000" using assms neg by simp
    then have "\<bar>us\<bar> * 2 ^ k \<le> ((- n) * 1000000) * 2 ^ k"
      by (intro mult_right_mono) simp_all
    then have "\<bar>us\<bar> * 2 ^ k \<le> ((- n) * 2 ^ k) * 1000000" by (simp add: algebra_simps)
    then have "m \<le> (- n) * 2 ^ k"
      unfolding m_def by (intro round_half_even_le) simp_all
    moreover have "sgn us = - 1" using neg by simp
    ultimately show ?thesis using ts by (simp add: float_less_int_def)
  qed
qed

lemma not_elapsed_less:
  assumes "0 \<le> n" and "n \<le> 2 ^ 34" and "us < n * 1000000"
  shows "float_less_int (total_seconds us) n"
proof -
  define k where "k = binary_scale 72 \<bar>us\<bar> 0"
  define m where "m = round_half_even (\<bar>us\<bar> * 2 ^ k) 1000000"
  have ts: "total_seconds us = (sgn us * m, k)"
    by (simp add: total_seconds_def Let_def k_def m_def)
  have pos: "(0::int) < 2 ^ k" by simp
  have nk: "0 \<le> n * 2 ^ k" using assms(1) by simp
  show ?thesis
  proof (cases "us = 0")
    case True
    then have "0 < n" using assms(3) by simp
    then have "0 < n * 2 ^ k" by simp
    then show ?thesis using True ts by (simp add: float_less_int_def)
  next
    case False
    then have a: "1 \<le> \<bar>us\<bar>" by simp
    have normal: "2 ^ 52 * 1000000 \<le> \<bar>us\<bar> * 2 ^ k"
      unfolding k_def by (rule binary_scale_normal [OF a])
    have "2 ^ 52 * 1000000 = (2 ^ 52 :: int) * 1000000" by simp
    then have "(2 ^ 52) * 1000000 \<le> \<bar>us\<bar> * 2 ^ k" using normal by simp
    then have m52: "2 ^ 52 \<le> m"
      unfolding m_def by (intro round_half_even_ge) simp_all
    show ?thesis
    proof (cases "us < 0")
      case True
      then have "sgn us = - 1" by simp
      moreover have "(0::int) < 2 ^ 52" by simp
      then have "- m < 0" using m52 by linarith
      ultimately show ?thesis using ts nk by (simp add: float_less_int_def)
    next
      case False
      then have up: "0 < us" "sgn us = 1" "\<bar>us\<bar> = us" using \<open>us \<noteq> 0\<close> by simp_all
      have "us < 2 ^ 34 * 1000000" using assms(2,3) by linarith
      then have "us * 2 ^ k < (2 ^ 34 * 1000000) * 2 ^ k"
        by (intro mult_strict_right_mono) simp_all
      then have "(2::int) ^ 52 * 1000000 < (2 ^ 34 * 1000000) * 2 ^ k"
        using normal up by linarith
      then have "(2::int) ^ 18 * 2 ^ 34 * 1000000 < 2 ^ k * 2 ^ 34 * 1000000"
        by (simp add: algebra_simps)
      then have "(2::int) ^ 18 < 2 ^ k" by simp
      then have "18 < k"
        using power_less_imp_less_exp [of "2::int" 18 k] by simp
      then have "19 \<le> k" by simp
      then have "(2::int) ^ 19 \<le> 2 ^ k" by (intro power_increasing) simp_all
      then have big: "(500000::int) < 2 ^ k" by simp
      have "us + 1 \<le> n * 1000000" using assms(3) by simp
      then have "(us + 1) * 2 ^ k \<le> (n * 1000000) * 2 ^ k"
        by (intro mult_right_mono) simp_all
      then have "us * 2 ^ k + 2 ^ k \<le> n * 2 ^ k * 1000000" by (simp add: algebra_simps)
      then have "2 * (us * 2 ^ k) + 1000000 < 2 * (n * 2 ^ k) * 1000000" using big by linarith
      then have "m < n * 2 ^ k"
        unfolding m_def up by (intro round_half_even_less) simp_all
      then show ?thesis using ts up by (simp add: float_less_int_def)
    qed
  qed
qed

lemma total_seconds_exact:
  assumes "0 \<le> n" and "n \<le> 2 ^ 34"
  shows "float_less_int (total_seconds us) n = (us < n * 1000000)"
proof (cases "us < n * 1000000")
  case True
  then show ?thesis using not_elapsed_less [OF assms] by simp
next
  case False
  then have "n * 1000000 \<le> us" by simp
  then show ?thesis using elapsed_not_less False by simp
qed


subsection \<open>Logging\<close>

lemma log_task_execution_reachable:
  assumes "mode amb = Reachable" and "stored_history (store w (history_key name)) = Inr h"
  shows "log_task_execution amb name ok err w =
           w\<lparr>reads := Suc (reads w),
             store := (store w)(history_key name \<mapsto>
               History (take 100 (\<lparr>task_name = name, timestamp = clock amb (reads w),
                                    success = ok, error = err\<rparr> # h)))\<rparr>"
  using assms by (simp add: log_task_execution_def now_def data_store_get_def data_store_set_def)

lemma stored_history_History [simp]: "stored_history (Some (History h)) = Inr h"
  by (simp add: stored_history_def)

lemma take_append_take: "take n (xs @ take n ys) = take n (xs @ ys)"
  by (induction xs arbitrary: n) (auto simp: take_Cons split: nat.splits)

lemma logged_length [simp]: "length (logged amb name k outs) = length outs"
  by (induction outs arbitrary: k) auto

lemma log_executions_reachable:
  assumes "mode amb = Reachable"
  shows "stored_history (store w (history_key name)) = Inr h \<Longrightarrow> outs \<noteq> [] \<Longrightarrow>
         store (log_executions amb name outs w) (history_key name) =
           Some (History (take 100 (rev (logged amb name (reads w) outs) @ h)))"
proof (induction outs arbitrary: w h)
  case Nil
  then show ?case by simp
next
  case (Cons o1 outs)
  obtain ok err where o1: "o1 = (ok, err)" by (cases o1)
  let ?e = "\<lparr>task_name = name, timestamp = clock amb (reads w), success = ok, error = err\<rparr>"
  let ?w = "log_task_execution amb name ok err w"
  have step: "?w = w\<lparr>reads := Suc (reads w),
             store := (store w)(history_key name \<mapsto> History (take 100 (?e # h)))\<rparr>"
    by (rule log_task_execution_reachable [OF assms Cons.prems(1)])
  show ?case
  proof (cases "outs = []")
    case True
    then show ?thesis using step o1 by simp
  next
    case False
    have sh: "stored_history (store ?w (history_key name)) = Inr (take 100 (?e # h))"
      using step by simp
    have "store (log_executions amb name outs ?w) (history_key name) =
           Some (History (take 100 (rev (logged amb name (reads ?w) outs) @ take 100 (?e # h))))"
      by (rule Cons.IH [OF sh False])
    moreover have "reads ?w = Suc (reads w)" using step by simp
    moreover have "rev (logged amb name (reads w) (o1 # outs)) @ h =
                   rev (logged amb name (Suc (reads w)) outs) @ (?e # h)"
      using o1 by simp
    moreover have "log_executions amb name (o1 # outs) w = log_executions amb name outs ?w"
      using o1 by simp
    ultimately show ?thesis by (simp only: take_append_take)
  qed
qed

lemma log_task_execution_bounded:
  "history_bounded w name \<Longrightarrow> history_bounded (log_task_execution amb name ok err w) name"
  by (cases "mode amb")
     (auto simp: history_bounded_def log_task_execution_def now_def data_store_get_def
        data_store_set_def split: sum.splits option.splits store_value.splits)

lemma log_executions_bounded:
  "history_bounded w name \<Longrightarrow> history_bounded (log_executions amb name outs w) name"
  by (induction outs arbitrary: w) (auto simp: log_task_execution_bounded)

lemma send_system_alert_store:
  "send_system_alert amb m src w = (r, w') \<Longrightarrow> store w' = store w \<and> reads w' = reads w"
  by (auto simp: send_system_alert_def split: option.splits)

text \<open>
  Claim C4. Whatever the store does, a history of at most 100 records stays one of at most
  100 records through any number of logged attempts. With a reachable store, logging a
  non-empty sequence of attempts leaves under the task's key exactly the 100 most recent
  records, newest first (the new records reversed, in front of the old ones, cut at 100):
  the oldest are evicted first. After 150 attempts on a task without history the length is
  exactly 100.
\<close>

theorem history_retention:
  "(history_bounded w name \<longrightarrow> history_bounded (log_executions amb name outs w) name)
   \<and> (mode amb = Reachable \<and> stored_history (store w (history_key name)) = Inr h \<and> outs \<noteq> []
      \<longrightarrow> store (log_executions amb name outs w) (history_key name) =
            Some (History (take 100 (rev (logged amb name (reads w) outs) @ h))))
   \<and> (mode amb = Reachable \<and> store w (history_key name) = None \<and> length outs = 150
      \<longrightarrow> (\<exists>hist. store (log_executions amb name outs w) (history_key name) = Some (History hist)
            \<and> length hist = 100
            \<and> hist = take 100 (rev (logged amb name (reads w) outs))))"
proof (intro conjI impI)
  assume "history_bounded w name"
  then show "history_bounded (log_executions amb name outs w) name"
    by (rule log_executions_bounded)
next
  assume a: "mode amb = Reachable \<and> stored_history (store w (history_key name)) = Inr h \<and> outs \<noteq> []"
  then show "store (log_executions amb name outs w) (history_key name) =
            Some (History (take 100 (rev (logged amb name (reads w) outs) @ h)))"
    using log_executions_reachable by blast
next
  assume a: "mode amb = Reachable \<and> store w (history_key name) = None \<and> length outs = 150"
  then have sh: "stored_history (store w (history_key name)) = Inr []"
    by (simp add: stored_history_def)
  from a have ne: "outs \<noteq> []" by auto
  have "store (log_executions amb name outs w) (history_key name) =
          Some (History (take 100 (rev (logged amb name (reads w) outs) @ [])))"
    using log_executions_reachable a sh ne by blast
  then show "\<exists>hist. store (log_executions amb name outs w) (history_key name) = Some (History hist)
            \<and> length hist = 100
            \<and> hist = take 100 (rev (logged amb name (reads w) outs))"
    using a by simp
qed

theorem history_retention_witness:
  "\<exists>hist. store (log_executions (calm minute_clock) ''A'' (replicate 150 (True, None)) fresh_world)
             (history_key ''A'') = Some (History hist)
          \<and> length hist = 100"
  using history_retention [of fresh_world "''A''" "calm minute_clock" "replicate 150 (True, None)" "[]"]
  by (simp add: calm_def fresh_world_def)

subsection \<open>The schedule evaluator\<close>

lemma binary_scale_numeral:
  "binary_scale (numeral v) a k =
     (if 2 ^ 52 * 1000000 \<le> a * 2 ^ k then k else binary_scale (pred_numeral v) a (Suc k))"
  by (simp add: numeral_eq_Suc)

text \<open>
  Claim C6, as the code has it. When \<^verbatim>\<open>last_run\<close> is present, the interval is not negative
  and at most \<open>2\<^sup>3\<^sup>4\<close> seconds (about 544 years), and the time from \<^verbatim>\<open>last_run\<close> to the
  current reading of the clock is strictly less than the interval, \<^verbatim>\<open>_should_run_task\<close>
  answers "not due", whatever the hour constraint.
\<close>

theorem should_run_task_interval_guard:
  assumes "last_run config = Some last_dt"
      and "0 \<le> interval_minutes config"
      and "interval_minutes config * 60 \<le> 2 ^ 34"
      and "total_microseconds (clock amb (reads w)) last_dt < interval_minutes config * 60 * 1000000"
  shows "fst (should_run_task amb name config at_hour w) = False"
proof -
  have "0 \<le> interval_minutes config * 60" using assms(2) by simp
  then have "float_less_int (total_seconds (total_microseconds (clock amb (reads w)) last_dt))
               (interval_minutes config * 60)"
    using assms(3,4) by (simp add: total_seconds_exact)
  then show ?thesis using assms(1) by (simp add: should_run_task_def now_def)
qed

theorem should_run_task_interval_guard_witness:
  "fst (should_run_task (calm (still_clock (at_time 2024 3 11 9 30))) ''daily'' nine_job
          (Some 9) fresh_world) = False"
proof -
  have a: "last_run nine_job = Some (at_time 2024 3 11 9 0)"
    by (simp add: nine_job_def)
  have i: "0 \<le> interval_minutes nine_job" "interval_minutes nine_job * 60 \<le> 2 ^ 34"
    by (simp_all add: nine_job_def job_config_def)
  have b: "total_microseconds
             (clock (calm (still_clock (at_time 2024 3 11 9 30))) (reads fresh_world))
             (at_time 2024 3 11 9 0)
           < interval_minutes nine_job * 60 * 1000000"
    by (simp add: nine_job_def job_config_def calm_def still_clock_def at_time_def
          total_microseconds_def toordinal_def seconds_of_day_def)
  show ?thesis using should_run_task_interval_guard [OF a i b] by simp
qed

lemma long_span: "total_microseconds eve_2000 (at_time 1400 1 1 0 0) = 18934127999999999"
  by (simp add: eve_2000_def at_time_def total_microseconds_def toordinal_def
        seconds_of_day_def days_before_year_def days_before_month_def DAYS_BEFORE_MONTH_def
        is_leap_def)

lemma long_span_seconds: "total_seconds 18934127999999999 = (4963468050432000, 18)"
proof -
  have "binary_scale 72 18934127999999999 0 = 18"
    by (simp add: binary_scale_numeral)
  then show ?thesis by (simp add: total_seconds_def round_half_even_def)
qed

text \<open>
  Claim C6 as stated fails for long intervals, where the float of line 211 cannot tell the
  elapsed time from the interval: one microsecond before 600 years have elapsed,
  \<^verbatim>\<open>total_seconds()\<close> is the interval itself, and the job with a 600 year interval is due.
\<close>

theorem should_run_task_interval_guard_counterexample:
  "total_microseconds eve_2000 (at_time 1400 1 1 0 0) < interval_minutes long_job * 60 * 1000000
   \<and> fst (should_run_task (calm (still_clock eve_2000)) ''slow'' long_job None fresh_world) = True"
proof -
  have c: "clock (calm (still_clock eve_2000)) (reads fresh_world) = eve_2000"
    by (simp add: calm_def still_clock_def)
  have j: "last_run long_job = Some (at_time 1400 1 1 0 0)"
          "interval_minutes long_job = 315568800"
    by (simp_all add: long_job_def job_config_def)
  have "\<not> float_less_int (total_seconds 18934127999999999) (315568800 * 60)"
    by (simp add: long_span_seconds float_less_int_def)
  then have "fst (should_run_task (calm (still_clock eve_2000)) ''slow'' long_job None fresh_world)
               = True"
    by (simp add: should_run_task_def now_def c j long_span)
  then show ?thesis by (simp add: j long_span)
qed

text \<open>
  Claim C7. For a job with an hour constraint \<open>h\<close> whose interval has elapsed, the
  evaluator answers "due" exactly when the hour now read is \<open>h\<close> and it is not the case
  that \<^verbatim>\<open>last_run\<close> lies on the date now read and in hour \<open>h\<close>. The job with a 60 minute
  interval, hour 9 and \<^verbatim>\<open>last_run\<close> at 09:00 on 11 March 2024 is not due at 09:30 that day
  and is due at 09:05 the next day.
\<close>

theorem should_run_task_hour_guard:
  "(last_run config = Some last_dt \<and>
     \<not> total_microseconds (clock amb (reads w)) last_dt < interval_minutes config * 60 * 1000000
    \<longrightarrow> fst (should_run_task amb name config (Some h) w) =
          (hour (clock amb (Suc (reads w))) = h \<and>
           \<not> (date last_dt = date (clock amb (Suc (Suc (reads w)))) \<and> hour last_dt = h)))
   \<and> fst (should_run_task (calm (still_clock (at_time 2024 3 11 9 30))) name nine_job
            (run_at_hour nine_job) w) = False
   \<and> fst (should_run_task (calm (still_clock (at_time 2024 3 12 9 5))) name nine_job
            (run_at_hour nine_job) w) = True"
proof (intro conjI impI)
  assume a: "last_run config = Some last_dt \<and>
     \<not> total_microseconds (clock amb (reads w)) last_dt < interval_minutes config * 60 * 1000000"
  then have "interval_minutes config * 60 * 1000000 \<le> total_microseconds (clock amb (reads w)) last_dt"
    by simp
  then have "\<not> float_less_int (total_seconds (total_microseconds (clock amb (reads w)) last_dt))
                 (interval_minutes config * 60)"
    by (rule elapsed_not_less)
  then show "fst (should_run_task amb name config (Some h) w) =
          (hour (clock amb (Suc (reads w))) = h \<and>
           \<not> (date last_dt = date (clock amb (Suc (Suc (reads w)))) \<and> hour last_dt = h))"
    using a by (simp add: should_run_task_def now_def)
next
  show "fst (should_run_task (calm (still_clock (at_time 2024 3 11 9 30))) name nine_job
            (run_at_hour nine_job) w) = False"
    by (simp add: should_run_task_def now_def nine_job_def job_config_def calm_def
          still_clock_def at_time_def total_microseconds_def toordinal_def seconds_of_day_def
          total_seconds_exact)
next
  show "fst (should_run_task (calm (still_clock (at_time 2024 3 12 9 5))) name nine_job
            (run_at_hour nine_job) w) = True"
    by (simp add: should_run_task_def now_def nine_job_def job_config_def calm_def
          still_clock_def at_time_def total_microseconds_def toordinal_def seconds_of_day_def
          days_before_year_def days_before_month_def DAYS_BEFORE_MONTH_def date_def
          total_seconds_exact)
qed

theorem should_run_task_hour_guard_witness:
  "last_run nine_job = Some (at_time 2024 3 11 9 0)
   \<and> \<not> total_microseconds (clock (calm (still_clock (at_time 2024 3 12 10 5))) (reads fresh_world))
          (at_time 2024 3 11 9 0) < interval_minutes nine_job * 60 * 1000000
   \<and> fst (should_run_task (calm (still_clock (at_time 2024 3 12 10 5))) ''daily'' nine_job (Some 9)
            fresh_world) = False"
  using should_run_task_hour_guard
          [of nine_job "at_time 2024 3 11 9 0" "calm (still_clock (at_time 2024 3 12 10 5))" fresh_world
              "''daily''" 9]
  by (simp add: nine_job_def job_config_def calm_def still_clock_def at_time_def total_microseconds_def
        toordinal_def seconds_of_day_def days_before_year_def days_before_month_def
        DAYS_BEFORE_MONTH_def fresh_world_def)

subsection \<open>The job runner\<close>

lemma map_entry_operations:
  "(\<And>c. task_function (f c) = task_function c) \<Longrightarrow>
   map (\<lambda>(name, config). (name, task_function config)) (AList.map_entry k f xs) =
   map (\<lambda>(name, config). (name, task_function config)) xs"
  by (induction xs) auto

lemma set_last_run_frame [simp]:
  "running_tasks (set_last_run name n s) = running_tasks s"
  "is_running (set_last_run name n s) = is_running s"
  "env (set_last_run name n s) = env s"
  "registered_operations (set_last_run name n s) = registered_operations s"
  by (simp_all add: set_last_run_def registered_operations_def map_entry_operations)

lemma registered_operations_env [simp]:
  "registered_operations (s\<lparr>env := w\<rparr>) = registered_operations s"
  by (simp add: registered_operations_def)

lemma execute_frame:
  "running_tasks (snd (execute_scheduled_task amb name config s)) = running_tasks s"
  "is_running (snd (execute_scheduled_task amb name config s)) = is_running s"
  "registered_operations (snd (execute_scheduled_task amb name config s)) = registered_operations s"
  by (auto simp: execute_scheduled_task_def Let_def
        split: prod.splits option.splits exn.splits)

lemma execute_result:
  "fst (execute_scheduled_task amb name config s) =
     (if fst (task_function config (running_tasks s) amb (env s)) = Some CancelledError
      then Some CancelledError else None)"
  by (auto simp: execute_scheduled_task_def Let_def split: prod.splits option.splits exn.splits)

lemma iteration_state:
  "snd (periodic_iteration amb name s) =
     (case map_of (task_configs s) name of
        None \<Rightarrow> s
      | Some config \<Rightarrow>
          (if fst (should_run_task amb name config (run_at_hour config) (env s))
           then snd (execute_scheduled_task amb name config
                       (s\<lparr>env := snd (should_run_task amb name config (run_at_hour config) (env s))\<rparr>))
           else s\<lparr>env := snd (should_run_task amb name config (run_at_hour config) (env s))\<rparr>))"
  by (auto simp: periodic_iteration_def Let_def
        split: prod.splits option.splits exn.splits)

lemma iteration_frame:
  "running_tasks (snd (periodic_iteration amb name s)) = running_tasks s"
  "is_running (snd (periodic_iteration amb name s)) = is_running s"
  "registered_operations (snd (periodic_iteration amb name s)) = registered_operations s"
  by (simp_all add: iteration_state execute_frame split: option.splits)

lemma execute_no_exception:
  assumes "never_cancelled amb (task_function config)"
      and "execute_scheduled_task amb name config s = (r, s')"
  shows "r = None"
proof -
  have "fst (execute_scheduled_task amb name config s) = None"
    using assms(1) by (simp add: execute_result never_cancelled_def)
  then show ?thesis using assms(2) by simp
qed

lemma iteration_continues:
  assumes "sleep_fault amb = None"
      and "map_of (task_configs s) name = Some config"
      and "never_cancelled amb (task_function config)"
  shows "fst (periodic_iteration amb name s) = Continue"
  using assms(1,2)
  by (auto simp: periodic_iteration_def Let_def sleep_def split: prod.splits
        dest: execute_no_exception [OF assms(3)])

lemma registered_map_of:
  "map_of (registered_operations s) name = map_option task_function (map_of (task_configs s) name)"
  by (simp add: registered_operations_def map_of_map)

lemma registered_lookup:
  "map_of (task_configs s) name = Some config \<Longrightarrow>
   (name, task_function config) \<in> set (registered_operations s)"
  by (force simp: registered_operations_def dest: map_of_SomeD)

lemma registered_names:
  "fst ` set (registered_operations s) = fst ` set (task_configs s)"
  by (force simp: registered_operations_def)

lemma tick_keeps:
  assumes "sleep_fault amb = None" and "isolating amb s"
  shows "running_tasks (tick amb name s) = running_tasks s
       \<and> is_running (tick amb name s) = is_running s
       \<and> registered_operations (tick amb name s) = registered_operations s"
proof (cases "map_of (running_tasks s) name = Some Pending")
  case False
  then show ?thesis by (simp add: tick_def)
next
  case True
  then have "name \<in> fst ` set (running_tasks s)"
    by (force dest: map_of_SomeD)
  then have "name \<in> fst ` set (task_configs s)"
    using assms(2) by (auto simp: isolating_def registered_names)
  then obtain config where c: "map_of (task_configs s) name = Some config"
    by (metis domD dom_map_of_conv_image_fst)
  then have "never_cancelled amb (task_function config)"
    using assms(2) registered_lookup [OF c] by (auto simp: isolating_def)
  then have cont: "fst (periodic_iteration amb name s) = Continue"
    using iteration_continues assms(1) c by blast
  have run: "is_running s" using assms(2) by (simp add: isolating_def)
  obtain s1 where p: "periodic_iteration amb name s = (Continue, s1)"
    using cont by (metis prod.collapse)
  have "tick amb name s = s1"
    using True run p by (simp add: tick_def)
  moreover have "s1 = snd (periodic_iteration amb name s)" using p by simp
  ultimately show ?thesis by (simp add: iteration_frame)
qed

lemma tick_isolating:
  assumes "sleep_fault amb = None" and "isolating amb s"
  shows "isolating amb (tick amb name s)"
  using tick_keeps [OF assms, of name] assms(2) by (simp add: isolating_def)

lemma run_ticks_keeps:
  assumes "sleep_fault amb = None"
  shows "isolating amb s \<Longrightarrow>
         running_tasks (run_ticks amb names s) = running_tasks s
       \<and> is_running (run_ticks amb names s)
       \<and> registered_operations (run_ticks amb names s) = registered_operations s"
proof (induction names arbitrary: s)
  case Nil
  then show ?case by (simp add: isolating_def)
next
  case (Cons name names)
  have "isolating amb (tick amb name s)"
    using tick_isolating [OF assms Cons.prems] .
  from Cons.IH [OF this] tick_keeps [OF assms Cons.prems, of name]
  show ?case by simp
qed

lemma run_periodic_task_continues:
  assumes "sleep_fault amb = None"
      and "never_cancelled amb f"
  shows "is_running s \<Longrightarrow> map_of (registered_operations s) name = Some f \<Longrightarrow>
         fst (run_periodic_task n amb name s) = Continue"
proof (induction n arbitrary: s)
  case 0
  then show ?case by simp
next
  case (Suc n)
  obtain config where c: "map_of (task_configs s) name = Some config" "task_function config = f"
    using Suc.prems(2) by (auto simp: registered_map_of)
  have "fst (periodic_iteration amb name s) = Continue"
    using iteration_continues [OF assms(1) c(1)] assms(2) c(2) by simp
  then obtain s1 where p: "periodic_iteration amb name s = (Continue, s1)"
    by (metis prod.collapse)
  then have s1: "s1 = snd (periodic_iteration amb name s)" by simp
  have "fst (run_periodic_task n amb name s1) = Continue"
    using Suc.IH [of s1] Suc.prems s1 by (simp add: iteration_frame)
  then show ?case using Suc.prems(1) p by simp
qed

lemma execute_failure:
  assumes "task_function config (running_tasks s) amb (env s) = (Some (Exception msg), w1)"
  shows "fst (execute_scheduled_task amb name config s) = None"
    and "task_configs (snd (execute_scheduled_task amb name config s)) = task_configs s"
    and "mode amb = Reachable \<Longrightarrow> stored_history (store w1 (history_key name)) = Inr h \<Longrightarrow>
         store (env (snd (execute_scheduled_task amb name config s))) (history_key name) =
           Some (History (take 100 (\<lparr>task_name = name, timestamp = clock amb (reads w1),
                                       success = False, error = Some msg\<rparr> # h)))"
  using assms
  by (auto simp: execute_scheduled_task_def Let_def log_task_execution_reachable
        split: prod.splits dest!: send_system_alert_store)

text \<open>
  Claim C1. Let the sleep of the runners not be interrupted, the scheduler run, and every
  registered operation return or raise an \<^verbatim>\<open>Exception\<close>. Then whatever the schedule of
  ticks, every task is as alive afterwards as before and the scheduler still runs; the
  loop of every registered job is still running after any number of passes, and a pass
  leaves the tasks untouched. When the operation raises in the execute step, no exception
  leaves the step, no configuration changes, and with a reachable store the failure is
  recorded at the head of the task's history.
\<close>

theorem failure_isolation:
  assumes "sleep_fault amb = None" and "isolating amb s"
  shows "running_tasks (run_ticks amb names s) = running_tasks s
       \<and> is_running (run_ticks amb names s)
       \<and> (\<forall>name config n. map_of (task_configs s) name = Some config
            \<longrightarrow> fst (run_periodic_task n amb name s) = Continue
              \<and> running_tasks (snd (periodic_iteration amb name s)) = running_tasks s)
       \<and> (\<forall>name (config::task_config) msg w1.
            task_function config (running_tasks s) amb (env s) = (Some (Exception msg), w1)
            \<longrightarrow> fst (execute_scheduled_task amb name config s) = None
              \<and> task_configs (snd (execute_scheduled_task amb name config s)) = task_configs s
              \<and> (\<forall>h. mode amb = Reachable \<and> stored_history (store w1 (history_key name)) = Inr h
                   \<longrightarrow> store (env (snd (execute_scheduled_task amb name config s))) (history_key name) =
                       Some (History (take 100 (\<lparr>task_name = name, timestamp = clock amb (reads w1),
                                                   success = False, error = Some msg\<rparr> # h)))))"
proof (intro conjI allI impI)
  show "running_tasks (run_ticks amb names s) = running_tasks s"
    using run_ticks_keeps [OF assms] by simp
  show "is_running (run_ticks amb names s)"
    using run_ticks_keeps [OF assms] by simp
next
  fix name config n
  assume c: "map_of (task_configs s) name = Some config"
  then have r: "map_of (registered_operations s) name = Some (task_function config)"
    by (simp add: registered_map_of)
  have "never_cancelled amb (task_function config)"
    using assms(2) registered_lookup [OF c] by (auto simp: isolating_def)
  moreover have "is_running s" using assms(2) by (simp add: isolating_def)
  ultimately show "fst (run_periodic_task n amb name s) = Continue"
    using run_periodic_task_continues [OF assms(1)] r by blast
  show "running_tasks (snd (periodic_iteration amb name s)) = running_tasks s"
    by (rule iteration_frame)
next
  fix name and config :: task_config and msg w1
  assume f: "task_function config (running_tasks s) amb (env s) = (Some (Exception msg), w1)"
  show "fst (execute_scheduled_task amb name config s) = None"
    by (rule execute_failure(1) [OF f])
  show "task_configs (snd (execute_scheduled_task amb name config s)) = task_configs s"
    by (rule execute_failure(2) [OF f])
  fix h
  assume "mode amb = Reachable \<and> stored_history (store w1 (history_key name)) = Inr h"
  then show "store (env (snd (execute_scheduled_task amb name config s))) (history_key name) =
                       Some (History (take 100 (\<lparr>task_name = name, timestamp = clock amb (reads w1),
                                                   success = False, error = Some msg\<rparr> # h)))"
    using execute_failure(3) [OF f] by blast
qed

lemma never_cancelled_examples:
  "never_cancelled amb (raising msg)" "never_cancelled amb returning"
  by (simp_all add: never_cancelled_def raising_def returning_def)

lemma isolating_two_jobs: "isolating (calm minute_clock) two_jobs"
  by (simp add: isolating_def two_jobs_def registered_operations_def job_config_def
        never_cancelled_examples)

lemma two_jobs_A:
  "map_of (task_configs two_jobs) ''A'' = Some (job_config 1 (raising ''boom'') None)"
  by (simp add: two_jobs_def)

lemma two_jobs_B:
  "map_of (task_configs two_jobs) ''B'' = Some (job_config 1 returning None)"
  by (simp add: two_jobs_def)

lemma two_jobs_run:
  "outcomes (run_ticks (calm minute_clock) [''A'', ''B'', ''A'', ''B''] two_jobs) ''A''
     = [False, False]"
  "outcomes (run_ticks (calm minute_clock) [''A'', ''B'', ''A'', ''B''] two_jobs) ''B''
     = [True, True]"
  by (simp_all add: outcomes_def tick_def two_jobs_def periodic_iteration_def should_run_task_def
     execute_scheduled_task_def job_config_def raising_def returning_def log_task_execution_def
     now_def data_store_get_def data_store_set_def calm_def fresh_world_def sleep_def
     send_system_alert_def stored_history_def history_key_def set_last_run_def
     minute_clock_def at_time_def total_microseconds_def toordinal_def seconds_of_day_def
     total_seconds_exact)

text \<open>
  \<open>A\<close> always raises and \<open>B\<close> always returns: after two ticks of each both tasks are
  pending, the history of \<open>A\<close> holds two failures and that of \<open>B\<close> two successes; the loop
  of \<open>A\<close> is still running after three passes, and the failure of \<open>A\<close> is recorded.
\<close>

theorem failure_isolation_witness:
  "running_tasks (run_ticks (calm minute_clock) [''A'', ''B'', ''A'', ''B''] two_jobs)
     = [(''A'', Pending), (''B'', Pending)]
   \<and> outcomes (run_ticks (calm minute_clock) [''A'', ''B'', ''A'', ''B''] two_jobs) ''A''
       = [False, False]
   \<and> outcomes (run_ticks (calm minute_clock) [''A'', ''B'', ''A'', ''B''] two_jobs) ''B''
       = [True, True]
   \<and> fst (run_periodic_task 3 (calm minute_clock) ''A'' two_jobs) = Continue
   \<and> store (env (snd (execute_scheduled_task (calm minute_clock) ''A''
                         (job_config 1 (raising ''boom'') None) two_jobs))) (history_key ''A'')
       = Some (History [\<lparr>task_name = ''A'', timestamp = at_time 2024 3 11 9 0,
                         success = False, error = Some ''boom''\<rparr>])"
proof -
  have a: "sleep_fault (calm minute_clock) = None" by (simp add: calm_def)
  note iso = failure_isolation [OF a isolating_two_jobs]
  have h: "running_tasks (run_ticks (calm minute_clock) [''A'', ''B'', ''A'', ''B''] two_jobs)
          = running_tasks two_jobs"
    using iso by blast
  have r: "running_tasks two_jobs = [(''A'', Pending), (''B'', Pending)]"
    by (simp add: two_jobs_def)
  have l: "fst (run_periodic_task 3 (calm minute_clock) ''A'' two_jobs) = Continue"
    using iso two_jobs_A by blast
  have f: "task_function (job_config 1 (raising ''boom'') None) (running_tasks two_jobs)
             (calm minute_clock) (env two_jobs) = (Some (Exception ''boom''), fresh_world)"
    by (simp add: job_config_def raising_def two_jobs_def)
  have m: "mode (calm minute_clock) = Reachable
           \<and> stored_history (store fresh_world (history_key ''A'')) = Inr []"
    by (simp add: calm_def fresh_world_def stored_history_def)
  have "store (env (snd (execute_scheduled_task (calm minute_clock) ''A''
                         (job_config 1 (raising ''boom'') None) two_jobs))) (history_key ''A'')
       = Some (History (take 100 [\<lparr>task_name = ''A'',
                 timestamp = clock (calm minute_clock) (reads fresh_world),
                 success = False, error = Some ''boom''\<rparr>]))"
    using iso f m by blast
  then have e: "store (env (snd (execute_scheduled_task (calm minute_clock) ''A''
                         (job_config 1 (raising ''boom'') None) two_jobs))) (history_key ''A'')
       = Some (History [\<lparr>task_name = ''A'', timestamp = at_time 2024 3 11 9 0,
                         success = False, error = Some ''boom''\<rparr>])"
    by (simp add: calm_def fresh_world_def minute_clock_def)
  show ?thesis by (simp only: h r l e two_jobs_run)
qed

text \<open>Looking a task up after \<^verbatim>\<open>config["last_run"]\<close> was assigned.\<close>

lemma map_of_set_last_run:
  "map_of (task_configs (set_last_run name n s)) name =
     map_option (\<lambda>c. c\<lparr>last_run := Some n\<rparr>) (map_of (task_configs s) name)"
  by (simp add: set_last_run_def map_of_map_entry split: option.splits)

lemma execute_success:
  assumes "task_function config (running_tasks s) amb (env s) = (None, w1)"
  shows "execute_scheduled_task amb name config s =
           (None, (set_last_run name (clock amb (reads w1)) s)
                    \<lparr>env := log_task_execution amb name True None (w1\<lparr>reads := Suc (reads w1)\<rparr>)\<rparr>)"
  using assms by (simp add: execute_scheduled_task_def now_def)

lemma execute_raise:
  assumes "task_function config (running_tasks s) amb (env s) = (Some e, w1)"
  shows "task_configs (snd (execute_scheduled_task amb name config s)) = task_configs s"
  using assms by (cases e) (auto simp: execute_scheduled_task_def Let_def split: prod.splits)

lemma manual_success:
  assumes "map_of (task_configs s) name = Some config"
      and "task_function config (running_tasks s) amb (env s) = (None, w1)"
  shows "run_task_manually amb name s =
           (Inr True, (set_last_run name (clock amb (reads w1)) s)
                    \<lparr>env := log_task_execution amb name True None (w1\<lparr>reads := Suc (reads w1)\<rparr>)\<rparr>)"
  using assms by (simp add: run_task_manually_def now_def)

lemma manual_raise:
  assumes "map_of (task_configs s) name = Some config"
      and "task_function config (running_tasks s) amb (env s) = (Some e, w1)"
  shows "task_configs (snd (run_task_manually amb name s)) = task_configs s"
  using assms by (cases e) (auto simp: run_task_manually_def Let_def split: prod.splits)

text \<open>
  Claim C2, as the code has it. The runner and the manual trigger assign \<^verbatim>\<open>last_run\<close> after
  the operation has returned normally, to a reading of the clock taken then; when the
  operation raises, no configuration changes, so \<^verbatim>\<open>last_run\<close> keeps its previous value.
\<close>

theorem last_run_set_after_success:
  assumes "map_of (task_configs s) name = Some config"
  shows "(task_function config (running_tasks s) amb (env s) = (None, w1) \<longrightarrow>
            map_of (task_configs (snd (execute_scheduled_task amb name config s))) name
              = Some (config\<lparr>last_run := Some (clock amb (reads w1))\<rparr>)
          \<and> map_of (task_configs (snd (run_task_manually amb name s))) name
              = Some (config\<lparr>last_run := Some (clock amb (reads w1))\<rparr>))
       \<and> (task_function config (running_tasks s) amb (env s) = (Some e, w1) \<longrightarrow>
            task_configs (snd (execute_scheduled_task amb name config s)) = task_configs s
          \<and> task_configs (snd (run_task_manually amb name s)) = task_configs s)"
  using assms
  by (auto simp: execute_success manual_success map_of_set_last_run execute_raise manual_raise)

theorem last_run_set_after_success_witness:
  "map_of (task_configs (snd (execute_scheduled_task (calm minute_clock) ''B''
                                (job_config 1 returning None) two_jobs))) ''B''
     = Some ((job_config 1 returning None)\<lparr>last_run := Some (at_time 2024 3 11 9 0)\<rparr>)
   \<and> task_configs (snd (execute_scheduled_task (calm minute_clock) ''A''
                           (job_config 1 (raising ''boom'') None) two_jobs))
     = task_configs two_jobs"
proof -
  have b: "task_function (job_config 1 returning None) (running_tasks two_jobs) (calm minute_clock)
             (env two_jobs) = (None, fresh_world)"
    by (simp add: job_config_def returning_def two_jobs_def)
  have a: "task_function (job_config 1 (raising ''boom'') None) (running_tasks two_jobs)
             (calm minute_clock) (env two_jobs) = (Some (Exception ''boom''), fresh_world)"
    by (simp add: job_config_def raising_def two_jobs_def)
  have c: "clock (calm minute_clock) (reads fresh_world) = at_time 2024 3 11 9 0"
    by (simp add: calm_def fresh_world_def minute_clock_def)
  show ?thesis
    using last_run_set_after_success [OF two_jobs_B, of "calm minute_clock" fresh_world]
          last_run_set_after_success
            [OF two_jobs_A, of "calm minute_clock" fresh_world "Exception ''boom''"]
          a b c
    by simp
qed

text \<open>
  Claim C2 as stated fails: after a pass in which the operation of \<open>A\<close> raised,
  \<^verbatim>\<open>last_run\<close> of \<open>A\<close> is still absent, and the very next pass runs the job again: two
  consecutive passes leave two failures in its history.
\<close>

theorem last_run_before_invocation_counterexample:
  "map_option last_run
     (map_of (task_configs (snd (periodic_iteration (calm minute_clock) ''A'' two_jobs))) ''A'')
     = Some None
   \<and> outcomes (snd (run_periodic_task 2 (calm minute_clock) ''A'' two_jobs)) ''A''
       = [False, False]"
  by (simp add: numeral_2_eq_2 outcomes_def two_jobs_def periodic_iteration_def
     should_run_task_def execute_scheduled_task_def job_config_def raising_def
     log_task_execution_def now_def data_store_get_def data_store_set_def calm_def
     fresh_world_def sleep_def send_system_alert_def stored_history_def history_key_def)

subsection \<open>The manual trigger\<close>

lemma log_task_execution_alerts [simp]:
  "alerts (log_task_execution amb name ok err w) = alerts w"
  by (cases "mode amb")
     (auto simp: log_task_execution_def now_def data_store_get_def data_store_set_def Let_def
        split: sum.splits)

lemma send_system_alert_world:
  "(snd (send_system_alert amb m src w))\<lparr>alerts := al\<rparr> = w\<lparr>alerts := al\<rparr>"
  by (simp add: send_system_alert_def split: option.splits)

text \<open>
  What the two paths share. For a registered name, \<^verbatim>\<open>run_task_manually\<close> leaves the same
  configurations, the same tasks and the same world as the execute step of the runner on
  the same operation, except for the alerts: the alerts after the manual run are those the
  operation left. It returns \<^verbatim>\<open>True\<close> when the operation returned normally and \<^verbatim>\<open>False\<close>
  when it raised an \<^verbatim>\<open>Exception\<close>; a \<^verbatim>\<open>CancelledError\<close> propagates. For an unregistered
  name it returns \<^verbatim>\<open>False\<close> and changes nothing.
\<close>

lemma manual_run_effects:
  "(map_of (task_configs s) name = Some config \<longrightarrow>
      task_configs (snd (run_task_manually amb name s))
        = task_configs (snd (execute_scheduled_task amb name config s))
    \<and> running_tasks (snd (run_task_manually amb name s))
        = running_tasks (snd (execute_scheduled_task amb name config s))
    \<and> is_running (snd (run_task_manually amb name s))
        = is_running (snd (execute_scheduled_task amb name config s))
    \<and> (env (snd (execute_scheduled_task amb name config s)))
          \<lparr>alerts := alerts (env (snd (run_task_manually amb name s)))\<rparr>
        = env (snd (run_task_manually amb name s))
    \<and> alerts (env (snd (run_task_manually amb name s)))
        = alerts (snd (task_function config (running_tasks s) amb (env s)))
    \<and> fst (run_task_manually amb name s)
        = (case fst (task_function config (running_tasks s) amb (env s)) of
             None \<Rightarrow> Inr True
           | Some (Exception msg) \<Rightarrow> Inr False
           | Some CancelledError \<Rightarrow> Inl CancelledError))
   \<and> (map_of (task_configs s) name = None \<longrightarrow> run_task_manually amb name s = (Inr False, s))"
proof (intro conjI impI)
  assume c: "map_of (task_configs s) name = Some config"
  obtain r w1 where op: "task_function config (running_tasks s) amb (env s) = (r, w1)"
    by (cases "task_function config (running_tasks s) amb (env s)")
  {
    assume "r = None"
    then have "run_task_manually amb name s =
       (Inr True, snd (execute_scheduled_task amb name config s))
       \<and> alerts (env (snd (run_task_manually amb name s))) = alerts w1"
      using c op by (simp add: run_task_manually_def execute_scheduled_task_def now_def)
  } note ok = this
  {
    fix msg assume "r = Some (Exception msg)"
    then have "run_task_manually amb name s =
         (Inr False, s\<lparr>env := log_task_execution amb name False (Some msg) w1\<rparr>)
       \<and> snd (execute_scheduled_task amb name config s) =
           s\<lparr>env := snd (send_system_alert amb (failure_alert name msg) ''scheduler''
                          (log_task_execution amb name False (Some msg) w1))\<rparr>"
      using c op
      by (simp add: run_task_manually_def execute_scheduled_task_def Let_def split: prod.splits)
  } note ex = this
  {
    assume "r = Some CancelledError"
    then have "run_task_manually amb name s = (Inl CancelledError, s\<lparr>env := w1\<rparr>)
       \<and> snd (execute_scheduled_task amb name config s) = s\<lparr>env := w1\<rparr>"
      using c op by (simp add: run_task_manually_def execute_scheduled_task_def)
  } note ca = this
  have cases: "r = None \<or> (\<exists>msg. r = Some (Exception msg)) \<or> r = Some CancelledError"
    by (cases r) (auto intro: exn.exhaust)
  show "task_configs (snd (run_task_manually amb name s))
        = task_configs (snd (execute_scheduled_task amb name config s))"
    using cases ok ex ca by auto
  show "running_tasks (snd (run_task_manually amb name s))
        = running_tasks (snd (execute_scheduled_task amb name config s))"
    using cases ok ex ca by auto
  show "is_running (snd (run_task_manually amb name s))
        = is_running (snd (execute_scheduled_task amb name config s))"
    using cases ok ex ca by auto
  show "(env (snd (execute_scheduled_task amb name config s)))
          \<lparr>alerts := alerts (env (snd (run_task_manually amb name s)))\<rparr>
        = env (snd (run_task_manually amb name s))"
    using cases ok ex ca by (auto simp: send_system_alert_world)
  show "alerts (env (snd (run_task_manually amb name s)))
        = alerts (snd (task_function config (running_tasks s) amb (env s)))"
    using cases ok ex ca op by auto
  show "fst (run_task_manually amb name s)
        = (case fst (task_function config (running_tasks s) amb (env s)) of
             None \<Rightarrow> Inr True
           | Some (Exception msg) \<Rightarrow> Inr False
           | Some CancelledError \<Rightarrow> Inl CancelledError)"
    using cases ok ex ca op by auto
next
  assume "map_of (task_configs s) name = None"
  then show "run_task_manually amb name s = (Inr False, s)"
    by (simp add: run_task_manually_def)
qed

text \<open>
  Claim C3: a manual run performs the same attempt, record and alert sequence as the
  execute step of the runner. The code does not: when the operation of \<open>A\<close> raises, the
  manual run records the failure and returns \<^verbatim>\<open>False\<close> but sends no alert, while the
  execute step of the runner, on the same scheduler and the same outcome, sends one.
\<close>

theorem manual_run_sends_no_alert:
  "fst (run_task_manually (calm minute_clock) ''A'' two_jobs) = Inr False
   \<and> outcomes (snd (run_task_manually (calm minute_clock) ''A'' two_jobs)) ''A'' = [False]
   \<and> alerts (env (snd (run_task_manually (calm minute_clock) ''A'' two_jobs))) = []
   \<and> alerts (env (snd (execute_scheduled_task (calm minute_clock) ''A''
                          (job_config 1 (raising ''boom'') None) two_jobs)))
       = [(failure_alert ''A'' ''boom'', ''scheduler'')]"
  by (simp add: outcomes_def two_jobs_def run_task_manually_def execute_scheduled_task_def
        job_config_def raising_def send_system_alert_def calm_def fresh_world_def
        log_task_execution_def now_def data_store_get_def data_store_set_def
        stored_history_def history_key_def)

subsection \<open>Stopping\<close>

text \<open>
  What \<^verbatim>\<open>await task\<close> does after \<^verbatim>\<open>task.cancel()\<close> is the runner's reaction to the
  \<^verbatim>\<open>CancelledError\<close> thrown into it. A runner cancelled in its sleep leaves its loop through
  the \<^verbatim>\<open>CancelledError\<close> handler, so that the task ends and the await returns.
\<close>

lemma cancelled_in_sleep_breaks:
  assumes "sleep_fault amb = Some CancelledError"
      and "map_of (task_configs s) name = Some config"
      and "never_cancelled amb (task_function config)"
  shows "fst (periodic_iteration amb name s) = Break"
  using assms(1,2)
  by (auto simp: periodic_iteration_def Let_def sleep_def split: prod.splits
        dest: execute_no_exception [OF assms(3)])





subsection \<open>The analytics jobs\<close>

lemma weekly_off_day:
  "weekday (clock amb (reads w)) \<noteq> 0 \<Longrightarrow>
   generate_weekly_analytics rt amb w = (None, w\<lparr>reads := Suc (reads w)\<rparr>)"
  by (simp add: generate_weekly_analytics_def now_def)

lemma monthly_off_day:
  "day (clock amb (reads w)) \<noteq> 1 \<Longrightarrow>
   generate_monthly_analytics rt amb w = (None, w\<lparr>reads := Suc (reads w)\<rparr>)"
  by (simp add: generate_monthly_analytics_def now_def)

lemma off_day_returns:
  "off_day amb w f \<Longrightarrow> f rt amb w = (None, w\<lparr>reads := Suc (reads w)\<rparr>)"
  by (auto simp: off_day_def weekly_off_day monthly_off_day)

lemma log_task_execution_traces [simp]:
  "generated (log_task_execution amb name ok err w) = generated w"
  "reports_sent (log_task_execution amb name ok err w) = reports_sent w"
  by (cases "mode amb";
      auto simp: log_task_execution_def now_def data_store_get_def data_store_set_def Let_def
        split: sum.splits)+

lemma execute_off_day:
  assumes "off_day amb (env s) (task_function config)"
  shows "execute_scheduled_task amb name config s =
           (None, (set_last_run name (clock amb (Suc (reads (env s)))) s)
                    \<lparr>env := log_task_execution amb name True None
                              ((env s)\<lparr>reads := Suc (Suc (reads (env s)))\<rparr>)\<rparr>)"
  using off_day_returns [OF assms, of "running_tasks s"]
  by (simp add: execute_scheduled_task_def now_def)

text \<open>
  Claim C9. On an off day (weekly job not on a Monday, monthly job not on the first of the
  month) the operation returns normally after reading the clock once, without calling a
  report builder and without sending anything. The execute step of the runner then raises
  nothing, assigns \<^verbatim>\<open>last_run\<close>, leaves the traces of generated and sent reports as they
  were, and with a reachable store records a success at the head of the history. The
  registry binds \<^verbatim>\<open>weekly_analytics\<close> and \<^verbatim>\<open>monthly_analytics\<close> to these two operations.
\<close>

theorem analytics_off_day:
  "(off_day amb w f \<longrightarrow> f rt amb w = (None, w\<lparr>reads := Suc (reads w)\<rparr>))
   \<and> (off_day amb (env s) (task_function config) \<and> map_of (task_configs s) name = Some config \<longrightarrow>
        fst (execute_scheduled_task amb name config s) = None
        \<and> map_of (task_configs (snd (execute_scheduled_task amb name config s))) name
            = Some (config\<lparr>last_run := Some (clock amb (Suc (reads (env s))))\<rparr>)
        \<and> generated (env (snd (execute_scheduled_task amb name config s))) = generated (env s)
        \<and> reports_sent (env (snd (execute_scheduled_task amb name config s))) = reports_sent (env s)
        \<and> (mode amb = Reachable \<and> stored_history (store (env s) (history_key name)) = Inr h \<longrightarrow>
             store (env (snd (execute_scheduled_task amb name config s))) (history_key name)
               = Some (History (take 100
                   (\<lparr>task_name = name, timestamp = clock amb (Suc (Suc (reads (env s)))),
                     success = True, error = None\<rparr> # h)))))
   \<and> map_of (task_configs (initialize_task_configs cfg js s)) ''weekly_analytics''
        = Some (job_config 10080 generate_weekly_analytics (Some (analytics_report_hour cfg)))
   \<and> map_of (task_configs (initialize_task_configs cfg js s)) ''monthly_analytics''
        = Some (job_config 43200 generate_monthly_analytics (Some (analytics_report_hour cfg)))"
proof (intro conjI impI)
  assume "off_day amb w f"
  then show "f rt amb w = (None, w\<lparr>reads := Suc (reads w)\<rparr>)" by (rule off_day_returns)
next
  assume a: "off_day amb (env s) (task_function config) \<and> map_of (task_configs s) name = Some config"
  note e = execute_off_day [of amb s config name]
  show "fst (execute_scheduled_task amb name config s) = None" using a e by simp
  show "map_of (task_configs (snd (execute_scheduled_task amb name config s))) name
            = Some (config\<lparr>last_run := Some (clock amb (Suc (reads (env s))))\<rparr>)"
    using a e by (simp add: set_last_run_def map_of_map_entry)
  show "generated (env (snd (execute_scheduled_task amb name config s))) = generated (env s)"
    using a e by simp
  show "reports_sent (env (snd (execute_scheduled_task amb name config s))) = reports_sent (env s)"
    using a e by simp
  assume "mode amb = Reachable \<and> stored_history (store (env s) (history_key name)) = Inr h"
  then show "store (env (snd (execute_scheduled_task amb name config s))) (history_key name)
               = Some (History (take 100
                   (\<lparr>task_name = name, timestamp = clock amb (Suc (Suc (reads (env s)))),
                     success = True, error = None\<rparr> # h)))"
    using a e by (simp add: log_task_execution_reachable)
next
  show "map_of (task_configs (initialize_task_configs cfg js s)) ''weekly_analytics''
        = Some (job_config 10080 generate_weekly_analytics (Some (analytics_report_hour cfg)))"
    by (simp add: initialize_task_configs_def)
  show "map_of (task_configs (initialize_task_configs cfg js s)) ''monthly_analytics''
        = Some (job_config 43200 generate_monthly_analytics (Some (analytics_report_hour cfg)))"
    by (simp add: initialize_task_configs_def)
qed

lemma started_weekly:
  "map_of (task_configs started) ''weekly_analytics''
     = Some (job_config 10080 generate_weekly_analytics (Some 9))"
  "running_tasks started = map (\<lambda>n. (n, Pending)) [''content_posting'', ''social_engagement'', ''sales_tasks'',
     ''daily_analytics'', ''weekly_analytics'', ''monthly_analytics'', ''auto_learning'', ''system_health_check'']"
  "env started = fresh_world"
  by (simp_all add: started_def start_def initialize_task_configs_def start_scheduled_tasks_def
        some_settings_def job_config_def)

lemma tuesday: "weekday (tuesday_clock 0) = 1" "day (tuesday_clock 0) = 12"
  by (simp_all add: tuesday_clock_def at_time_def weekday_def toordinal_def days_before_year_def
        days_before_month_def DAYS_BEFORE_MONTH_def is_leap_def)

theorem analytics_off_day_witness:
  "fst (execute_scheduled_task (calm tuesday_clock) ''weekly_analytics''
          (job_config 10080 generate_weekly_analytics (Some 9)) started) = None
   \<and> map_option last_run (map_of (task_configs (snd (execute_scheduled_task (calm tuesday_clock)
          ''weekly_analytics'' (job_config 10080 generate_weekly_analytics (Some 9)) started)))
          ''weekly_analytics'') = Some (Some (at_time 2024 3 12 9 1))
   \<and> generated (env (snd (execute_scheduled_task (calm tuesday_clock) ''weekly_analytics''
          (job_config 10080 generate_weekly_analytics (Some 9)) started))) = []
   \<and> outcomes (snd (execute_scheduled_task (calm tuesday_clock) ''weekly_analytics''
          (job_config 10080 generate_weekly_analytics (Some 9)) started)) ''weekly_analytics'' = [True]"
proof -
  have o: "off_day (calm tuesday_clock) (env started)
             (task_function (job_config 10080 generate_weekly_analytics (Some 9)))"
    using tuesday by (simp add: off_day_def job_config_def started_weekly calm_def fresh_world_def)
  have h: "mode (calm tuesday_clock) = Reachable
           \<and> stored_history (store (env started) (history_key ''weekly_analytics'')) = Inr []"
    by (simp add: calm_def started_weekly fresh_world_def stored_history_def)
  show ?thesis
    using analytics_off_day [of "calm tuesday_clock" _ _ _ started
            "job_config 10080 generate_weekly_analytics (Some 9)" "''weekly_analytics''" "[]"]
          o h started_weekly(1)
    by (simp add: outcomes_def started_weekly(3) fresh_world_def calm_def tuesday_clock_def job_config_def)
qed

subsection \<open>The health check\<close>

lemma probe_store_result: "fst (probe_store amb w) = (mode amb = Reachable)"
  by (cases "mode amb") (simp_all add: probe_store_def now_def data_store_set_def data_store_get_def)

lemma all_running:
  "list_all (\<lambda>(name, st). running st) (map (\<lambda>(name, t). (name, liveness t)) rt)
     = list_all (\<lambda>(name, t). \<not> task_done t) rt"
  by (induction rt) (auto simp: liveness_def)

lemma probe_store_pair:
  "probe_store amb w = (r, w') \<Longrightarrow> r = (mode amb = Reachable)"
  using probe_store_result [of amb w] by simp

lemma snapshot_status:
  "overall_status (fst (health_snapshot rt amb w)) =
     derive_overall_status (mode amb = Reachable) (list_all (\<lambda>(name, t). \<not> task_done t) rt)"
  "redis_connection (fst (health_snapshot rt amb w)) = (mode amb = Reachable)"
  by (auto simp: health_snapshot_def now_def Let_def all_running split: prod.splits
        dest: probe_store_pair)

text \<open>
  Claim C5. The snapshot's \<^verbatim>\<open>overall_status\<close> is \<^verbatim>\<open>healthy\<close> exactly when the store is
  reachable and every tracked task is running, \<^verbatim>\<open>unhealthy\<close> exactly when neither holds,
  and \<^verbatim>\<open>degraded\<close> exactly when one of the two holds and the other does not. With a
  reachable store the health check persists this snapshot under \<^verbatim>\<open>system_health\<close>.
\<close>

theorem health_derivation:
  "(overall_status (fst (health_snapshot rt amb w)) = ''healthy''
      \<longleftrightarrow> mode amb = Reachable \<and> list_all (\<lambda>(name, t). \<not> task_done t) rt)
   \<and> (overall_status (fst (health_snapshot rt amb w)) = ''unhealthy''
      \<longleftrightarrow> mode amb \<noteq> Reachable \<and> \<not> list_all (\<lambda>(name, t). \<not> task_done t) rt)
   \<and> (overall_status (fst (health_snapshot rt amb w)) = ''degraded''
      \<longleftrightarrow> (mode amb = Reachable) \<noteq> list_all (\<lambda>(name, t). \<not> task_done t) rt)
   \<and> (mode amb = Reachable \<longrightarrow>
        store (snd (system_health_check rt amb w)) ''system_health''
          = Some (Health (fst (health_snapshot rt amb w))))"
proof -
  have st: "store (snd (send_system_alert amb m src w')) = store w'" for m src w'
    by (simp add: send_system_alert_def split: option.splits)
  have "mode amb = Reachable \<Longrightarrow>
        store (snd (system_health_check rt amb w)) ''system_health''
          = Some (Health (fst (health_snapshot rt amb w)))"
    by (simp add: system_health_check_def split_def Let_def data_store_set_def except_Exception_def
          snapshot_status derive_overall_status_def)
  then show ?thesis
    by (auto simp: snapshot_status derive_overall_status_def)
qed

theorem health_derivation_witness:
  "overall_status (fst (health_snapshot [(''A'', Pending), (''B'', Pending)]
      ((calm minute_clock)\<lparr>mode := Raising ''connection refused''\<rparr>) fresh_world)) = ''degraded''
   \<and> overall_status (fst (health_snapshot [(''A'', Finished), (''B'', Cancelled)]
      ((calm minute_clock)\<lparr>mode := Raising ''connection refused''\<rparr>) fresh_world)) = ''unhealthy''
   \<and> overall_status (fst (health_snapshot [(''A'', Pending), (''B'', Pending)]
      (calm minute_clock) fresh_world)) = ''healthy''
   \<and> (\<exists>hs. store (snd (system_health_check [(''A'', Pending), (''B'', Pending)]
                (calm minute_clock) fresh_world)) ''system_health'' = Some (Health hs)
           \<and> overall_status hs = ''healthy'')"
  using health_derivation [of "[(''A'', Pending), (''B'', Pending)]"
          "(calm minute_clock)\<lparr>mode := Raising ''connection refused''\<rparr>" fresh_world]
        health_derivation [of "[(''A'', Finished), (''B'', Cancelled)]"
          "(calm minute_clock)\<lparr>mode := Raising ''connection refused''\<rparr>" fresh_world]
        health_derivation [of "[(''A'', Pending), (''B'', Pending)]" "calm minute_clock" fresh_world]
  by (simp add: calm_def task_done_def)

subsection \<open>The status query\<close>


end
